theory Spec2Isabelle
  imports Complex_Main
begin

section \<open>Dynawo solver utilities: sparse Jacobian synchronisation and profiling\<close>

text \<open>
  A shallow embedding of \<^verbatim>\<open>DYNSolverCommon.cpp\<close> (\<^verbatim>\<open>copySparseToKINSOL\<close>,
  \<^verbatim>\<open>propagateMatrixStructureChangeToKINSOL\<close>) and of \<^verbatim>\<open>DYNSolverProfiler.cpp\<close>.

  Conventions of the model.
  \<^item> C++ \<^verbatim>\<open>int\<close> and \<^verbatim>\<open>sunindextype\<close> values are HOL integers; the two conversions to
    \<^verbatim>\<open>unsigned\<close> that bound the copy loops are written out modulo \<open>2 ^ 32\<close>.
  \<^item> \<^verbatim>\<open>double\<close> and \<^verbatim>\<open>realtype\<close> values are HOL reals, and the conversions between the
    integer types (\<^verbatim>\<open>int\<close>, \<^verbatim>\<open>sunindextype\<close>) are the identity. The only comparison of a
    computed quotient with a constant is \<^verbatim>\<open>changeRatio >= 0.01\<close>; the quotient is that of two
    32-bit integers, so either it is exactly one hundredth, or it is further from it than
    the rounding of the division and of the constant can bridge. This is an assumption of
    the model, not a theorem of it.
  \<^item> A heap array is the list of its entries: its length is the number of entries that were
    allocated. A read or a write outside an array, which is undefined behaviour in C++, is an
    error value of the model, and so is a division whose divisor is zero.
  \<^item> Field names of the source that end in an underscore lose it (\<^verbatim>\<open>Ap_\<close> is \<open>Ap\<close>).
\<close>

datatype error =
  IndexOutOfRange
  | SnapshotReadOutOfBounds
  | RowIndexReadOutOfBounds
  | AllocationFailure
  | DivisionByZero

subsection \<open>The performance profiler\<close>

record SolverProfiler =
  symbolicFactorizations :: int
  numericalOnlyFactorizations :: int
  structureChangeDetections :: int
  falsePositiveStructureChanges :: int
  jacobianEvaluations :: int
  totalSymbolicTime :: real
  totalNumericalTime :: real
  totalJacobianTime :: real
  totalNnzDiff :: real
  totalChangeRatio :: real

text \<open>The constructor \<^verbatim>\<open>SolverProfiler::SolverProfiler()\<close>.\<close>

definition SolverProfiler_new :: SolverProfiler where
  "SolverProfiler_new =
     \<lparr> symbolicFactorizations = 0,
       numericalOnlyFactorizations = 0,
       structureChangeDetections = 0,
       falsePositiveStructureChanges = 0,
       jacobianEvaluations = 0,
       totalSymbolicTime = 0,
       totalNumericalTime = 0,
       totalJacobianTime = 0,
       totalNnzDiff = 0,
       totalChangeRatio = 0 \<rparr>"

definition reset :: "SolverProfiler \<Rightarrow> SolverProfiler" where
  "reset p =
     p\<lparr> symbolicFactorizations := 0,
       numericalOnlyFactorizations := 0,
       structureChangeDetections := 0,
       falsePositiveStructureChanges := 0,
       jacobianEvaluations := 0,
       totalSymbolicTime := 0,
       totalNumericalTime := 0,
       totalJacobianTime := 0,
       totalNnzDiff := 0,
       totalChangeRatio := 0 \<rparr>"

definition logSymbolicFactorization :: "real \<Rightarrow> SolverProfiler \<Rightarrow> SolverProfiler" where
  "logSymbolicFactorization elapsedTime p =
     p\<lparr> symbolicFactorizations := symbolicFactorizations p + 1,
       totalSymbolicTime := totalSymbolicTime p + elapsedTime \<rparr>"

definition logNumericalFactorization :: "real \<Rightarrow> SolverProfiler \<Rightarrow> SolverProfiler" where
  "logNumericalFactorization elapsedTime p =
     p\<lparr> numericalOnlyFactorizations := numericalOnlyFactorizations p + 1,
       totalNumericalTime := totalNumericalTime p + elapsedTime \<rparr>"

definition logStructureChange :: "bool \<Rightarrow> int \<Rightarrow> real \<Rightarrow> SolverProfiler \<Rightarrow> SolverProfiler" where
  "logStructureChange wasNecessary nnzDiff changeRatio p =
     (let p1 = p\<lparr> structureChangeDetections := structureChangeDetections p + 1,
                   totalNnzDiff := totalNnzDiff p + real_of_int nnzDiff,
                   totalChangeRatio := totalChangeRatio p + changeRatio \<rparr>
      in if \<not> wasNecessary
         then p1\<lparr> falsePositiveStructureChanges := falsePositiveStructureChanges p1 + 1 \<rparr>
         else p1)"

definition logJacobianEvaluation :: "real \<Rightarrow> SolverProfiler \<Rightarrow> SolverProfiler" where
  "logJacobianEvaluation elapsedTime p =
     p\<lparr> jacobianEvaluations := jacobianEvaluations p + 1,
       totalJacobianTime := totalJacobianTime p + elapsedTime \<rparr>"

text \<open>The inline getters of \<^verbatim>\<open>DYNSolverProfiler.h\<close>.\<close>

definition getSymbolicFactorizationCount :: "SolverProfiler \<Rightarrow> int" where
  "getSymbolicFactorizationCount p = symbolicFactorizations p"

definition getNumericalFactorizationCount :: "SolverProfiler \<Rightarrow> int" where
  "getNumericalFactorizationCount p = numericalOnlyFactorizations p"

definition getTotalSymbolicTime :: "SolverProfiler \<Rightarrow> real" where
  "getTotalSymbolicTime p = totalSymbolicTime p"

definition getTotalNumericalTime :: "SolverProfiler \<Rightarrow> real" where
  "getTotalNumericalTime p = totalNumericalTime p"

definition getFalsePositiveCount :: "SolverProfiler \<Rightarrow> int" where
  "getFalsePositiveCount p = falsePositiveStructureChanges p"

definition getSymbolicToNumericalRatio :: "SolverProfiler \<Rightarrow> real" where
  "getSymbolicToNumericalRatio p =
     (if numericalOnlyFactorizations p = 0 then 0
      else real_of_int (symbolicFactorizations p) / real_of_int (numericalOnlyFactorizations p))"

text \<open>
  \<^verbatim>\<open>printStatistics\<close> writes a report to a string stream. The report is the list of
  its items: a line of fixed text, a labelled counter, or a labelled number printed with a
  fixed precision. Every division of the function goes through \<open>fdiv\<close>, which fails when
  the divisor is zero, so that the report exists exactly when no such division is executed.
  (In the C++ such a quotient of doubles is infinite or not a number, and is printed as such.)
\<close>

datatype report_item =
  Line string
  | Counter string int
  | Fixed string nat real

definition fdiv :: "real \<Rightarrow> real \<Rightarrow> error + real" where
  "fdiv a b = (if b = 0 then Inl DivisionByZero else Inr (a / b))"

definition field :: "string \<Rightarrow> nat \<Rightarrow> error + real \<Rightarrow> error + report_item list" where
  "field label precision v =
     (case v of Inl e \<Rightarrow> Inl e | Inr x \<Rightarrow> Inr [Fixed label precision x])"

fun sections :: "(error + report_item list) list \<Rightarrow> error + report_item list" where
  "sections [] = Inr []"
| "sections (s # ss) =
     (case s of
        Inl e \<Rightarrow> Inl e
      | Inr items \<Rightarrow> (case sections ss of Inl e \<Rightarrow> Inl e | Inr rest \<Rightarrow> Inr (items @ rest)))"

definition printStatistics :: "SolverProfiler \<Rightarrow> error + report_item list" where
  "printStatistics p =
     (let totalFactorizations = symbolicFactorizations p + numericalOnlyFactorizations p;
          ratio = getSymbolicToNumericalRatio p
      in sections
        [ Inr [Line ''Solver Performance Profiling Report'',
               Line ''Factorization Statistics:'',
               Counter ''Symbolic factorizations'' (symbolicFactorizations p),
               Counter ''Numerical-only factorizations'' (numericalOnlyFactorizations p)],
          (if totalFactorizations > 0
           then field ''Symbolic ratio'' 1
                  (case fdiv (real_of_int (symbolicFactorizations p))
                             (real_of_int totalFactorizations) of
                     Inl e \<Rightarrow> Inl e
                   | Inr q \<Rightarrow> Inr (q * 100))
           else Inr []),
          (if symbolicFactorizations p > 0
           then field ''Avg symbolic time'' 6
                  (fdiv (totalSymbolicTime p) (real_of_int (symbolicFactorizations p)))
           else Inr []),
          (if numericalOnlyFactorizations p > 0
           then field ''Avg numerical time'' 6
                  (fdiv (totalNumericalTime p) (real_of_int (numericalOnlyFactorizations p)))
           else Inr []),
          Inr [Fixed ''Total symbolic time'' 6 (totalSymbolicTime p),
               Fixed ''Total numerical time'' 6 (totalNumericalTime p)],
          (if ratio > 0 then Inr [Fixed ''Symbolic/Numerical ratio'' 2 ratio] else Inr []),
          Inr [Line ''Matrix Structure Changes:'',
               Counter ''Total detections'' (structureChangeDetections p),
               Counter ''False positives avoided'' (falsePositiveStructureChanges p)],
          (if structureChangeDetections p > 0
           then sections
                  [ field ''Avoidance rate'' 1
                      (case fdiv (real_of_int (falsePositiveStructureChanges p))
                                 (real_of_int (structureChangeDetections p)) of
                         Inl e \<Rightarrow> Inl e
                       | Inr q \<Rightarrow> Inr (q * 100)),
                    field ''Avg NNZ difference'' 1
                      (fdiv (totalNnzDiff p) (real_of_int (structureChangeDetections p))),
                    field ''Avg change ratio'' 4
                      (fdiv (totalChangeRatio p) (real_of_int (structureChangeDetections p))) ]
           else Inr []),
          Inr [Line ''Jacobian Evaluation:'',
               Counter ''Total evaluations'' (jacobianEvaluations p),
               Fixed ''Total Jacobian time'' 6 (totalJacobianTime p)],
          (if jacobianEvaluations p > 0
           then field ''Avg evaluation time'' 6
                  (fdiv (totalJacobianTime p) (real_of_int (jacobianEvaluations p)))
           else Inr []),
          Inr [Line ''Performance Analysis:''],
          (if ratio > 3 / 2
           then Inr [Line ''HIGH symbolic factorization ratio detected!'',
                     Line ''Consider enabling adaptive factorization control.'']
           else if ratio > 0 \<and> ratio < 1 / 2
           then Inr [Line ''GOOD symbolic factorization efficiency.'']
           else Inr []),
          (if falsePositiveStructureChanges p > 0
           then field ''Estimated time saved by tolerance'' 3
                  (case fdiv (totalSymbolicTime p) (real_of_int (symbolicFactorizations p)) of
                     Inl e \<Rightarrow> Inl e
                   | Inr avg \<Rightarrow> Inr (real_of_int (falsePositiveStructureChanges p) * avg))
           else Inr []) ])"

subsection \<open>The sparse matrices\<close>

text \<open>
  \<^verbatim>\<open>SparseMatrix\<close> is declared in \<^verbatim>\<open>DYNSparseMatrix.h\<close>: the function reads
  its column pointers \<^verbatim>\<open>Ap_\<close> (unsigned), its row indices \<^verbatim>\<open>Ai_\<close> (int), its values
  \<^verbatim>\<open>Ax_\<close> (double) and its number of stored entries through \<^verbatim>\<open>nbElem()\<close>.
\<close>

record SparseMatrix =
  Ap :: "nat list"
  Ai :: "int list"
  Ax :: "real list"
  nbTerm :: int

definition nbElem :: "SparseMatrix \<Rightarrow> int" where
  "nbElem smj = nbTerm smj"

text \<open>
  The content of a SUNDIALS sparse matrix, with one field for each accessor macro that the
  source uses. The allocated capacity of the matrix is the length of its row-index array.
\<close>

record SUNMatrix =
  SM_NNZ_S :: int
  SM_INDEXPTRS_S :: "int list"
  SM_INDEXVALS_S :: "int list"
  SM_DATA_S :: "real list"

definition capacity :: "SUNMatrix \<Rightarrow> nat" where
  "capacity JJ = length (SM_INDEXVALS_S JJ)"

text \<open>
  \<^verbatim>\<open>malloc\<close> of \<open>n\<close> entries. A negative count becomes a huge \<^verbatim>\<open>size_t\<close> and the
  allocation fails; otherwise the allocation is taken to succeed (the source does not test
  the pointer). The entries of the new array are indeterminate in C++ and \<open>0\<close> here: on the
  growth path both copy loops overwrite every entry of the new arrays before any is read.
\<close>

definition malloc_array :: "int \<Rightarrow> 'a \<Rightarrow> error + 'a list" where
  "malloc_array n fill = (if n < 0 then Inl AllocationFailure else Inr (replicate (nat n) fill))"

text \<open>Conversion of an \<^verbatim>\<open>int\<close> to \<^verbatim>\<open>unsigned\<close>, as in \<^verbatim>\<open>unsigned iEnd = size + 1\<close>.\<close>

definition to_unsigned :: "int \<Rightarrow> nat" where
  "to_unsigned n = nat (n mod 2 ^ 32)"

text \<open>Lines 45 to 52: the three arrays are released and allocated again.\<close>

definition reallocate :: "SUNMatrix \<Rightarrow> int \<Rightarrow> int \<Rightarrow> error + SUNMatrix" where
  "reallocate JJ size' newNNZ =
     (case malloc_array (size' + 1) (0 :: int) of
        Inl e \<Rightarrow> Inl e
      | Inr ptrs \<Rightarrow>
          (case malloc_array newNNZ (0 :: int) of
             Inl e \<Rightarrow> Inl e
           | Inr vals \<Rightarrow>
               (case malloc_array newNNZ (0 :: real) of
                  Inl e \<Rightarrow> Inl e
                | Inr dat \<Rightarrow>
                    Inr (JJ\<lparr> SM_NNZ_S := newNNZ,
                             SM_INDEXPTRS_S := ptrs,
                             SM_INDEXVALS_S := vals,
                             SM_DATA_S := dat \<rparr>))))"

text \<open>Lines 58 to 60: the loop over the column pointers.\<close>

function copy_indexptrs :: "nat \<Rightarrow> nat \<Rightarrow> SparseMatrix \<Rightarrow> SUNMatrix \<Rightarrow> error + SUNMatrix" where
  "copy_indexptrs i iEnd smj JJ =
     (if i < iEnd then
        (if i < length (Ap smj) \<and> i < length (SM_INDEXPTRS_S JJ)
         then copy_indexptrs (Suc i) iEnd smj
                (JJ\<lparr> SM_INDEXPTRS_S := (SM_INDEXPTRS_S JJ)[i := int (Ap smj ! i)] \<rparr>)
         else Inl IndexOutOfRange)
      else Inr JJ)"
  by pat_completeness auto
termination
  by (relation "measure (\<lambda>(i, iEnd, smj, JJ). iEnd - i)") auto

text \<open>Lines 61 to 64: the loop over the row indices and the values.\<close>

function copy_entries :: "nat \<Rightarrow> nat \<Rightarrow> SparseMatrix \<Rightarrow> SUNMatrix \<Rightarrow> error + SUNMatrix" where
  "copy_entries i iEnd smj JJ =
     (if i < iEnd then
        (if i < length (Ai smj) \<and> i < length (SM_INDEXVALS_S JJ)
            \<and> i < length (Ax smj) \<and> i < length (SM_DATA_S JJ)
         then copy_entries (Suc i) iEnd smj
                (JJ\<lparr> SM_INDEXVALS_S := (SM_INDEXVALS_S JJ)[i := Ai smj ! i],
                     SM_DATA_S := (SM_DATA_S JJ)[i := Ax smj ! i] \<rparr>)
         else Inl IndexOutOfRange)
      else Inr JJ)"
  by pat_completeness auto
termination
  by (relation "measure (\<lambda>(i, iEnd, smj, JJ). iEnd - i)") auto

text \<open>
  Lines 40 to 64: the copy of the local matrix into the backend matrix. The result is the
  tentative flag of the growth path and the updated backend matrix.
\<close>

definition copy_structure :: "SparseMatrix \<Rightarrow> SUNMatrix \<Rightarrow> int \<Rightarrow> error + bool \<times> SUNMatrix" where
  "copy_structure smj JJ size' =
     (let currentNNZ = SM_NNZ_S JJ;
          newNNZ = nbElem smj
      in case (if currentNNZ < newNNZ
               then (case reallocate JJ size' newNNZ of
                       Inl e \<Rightarrow> Inl e
                     | Inr JJ1 \<Rightarrow> Inr (True, JJ1))
               else Inr (False, JJ)) of
           Inl e \<Rightarrow> Inl e
         | Inr (matrixStructChange, JJ1) \<Rightarrow>
             (case copy_indexptrs 0 (to_unsigned (size' + 1)) smj (JJ1\<lparr> SM_NNZ_S := newNNZ \<rparr>) of
                Inl e \<Rightarrow> Inl e
              | Inr JJ2 \<Rightarrow>
                  (case copy_entries 0 (to_unsigned (nbElem smj)) smj JJ2 of
                     Inl e \<Rightarrow> Inl e
                   | Inr JJ3 \<Rightarrow> Inr (matrixStructChange, JJ3))))"

text \<open>
  \<^verbatim>\<open>memcmp(lastRowVals, SM_INDEXVALS_S(JJ), sizeof (sunindextype) * n) != 0\<close>. Both arrays
  hold \<^verbatim>\<open>sunindextype\<close> values, so their first \<open>n\<close> entries have the same bytes exactly when
  they are equal. The call reads \<open>n\<close> entries of each array; a negative \<open>n\<close> becomes a huge
  byte count.
\<close>

definition memcmp_differs :: "int list \<Rightarrow> int list \<Rightarrow> int \<Rightarrow> error + bool" where
  "memcmp_differs lastRowVals indexvals n =
     (if n < 0 \<or> length lastRowVals < nat n then Inl SnapshotReadOutOfBounds
      else if length indexvals < nat n then Inl RowIndexReadOutOfBounds
      else Inr (take (nat n) lastRowVals \<noteq> take (nat n) indexvals))"

definition STRUCTURE_CHANGE_TOLERANCE :: real where
  "STRUCTURE_CHANGE_TOLERANCE = 1 / 100"

definition MIN_NNZ_CHANGE :: int where
  "MIN_NNZ_CHANGE = 10"

text \<open>Lines 66 to 93: the classification against the snapshot.\<close>

definition classify ::
  "int \<Rightarrow> int \<Rightarrow> bool \<Rightarrow> SUNMatrix \<Rightarrow> int list option \<Rightarrow> error + bool" where
  "classify currentNNZ newNNZ matrixStructChange JJ lastRowVals =
     (case lastRowVals of
        Some snapshot \<Rightarrow>
          (let nnzDiff = \<bar>newNNZ - currentNNZ\<bar>;
               changeRatio = (if currentNNZ > 0
                              then real_of_int nnzDiff / real_of_int currentNNZ
                              else 1)
           in if changeRatio \<ge> STRUCTURE_CHANGE_TOLERANCE \<or> nnzDiff \<ge> MIN_NNZ_CHANGE
              then (case memcmp_differs snapshot (SM_INDEXVALS_S JJ) (SM_NNZ_S JJ) of
                      Inl e \<Rightarrow> Inl e
                    | Inr differs \<Rightarrow> Inr (if differs then True else matrixStructChange))
              else if newNNZ = currentNNZ
              then (case memcmp_differs snapshot (SM_INDEXVALS_S JJ) (SM_NNZ_S JJ) of
                      Inl e \<Rightarrow> Inl e
                    | Inr differs \<Rightarrow> Inr (if differs then True else matrixStructChange))
              else Inr matrixStructChange)
      | None \<Rightarrow> Inr True)"

text \<open>
  \<^verbatim>\<open>SolverCommon::copySparseToKINSOL\<close>. The backend matrix is passed by reference and
  mutated: the model returns it beside the verdict. \<open>None\<close> is the null snapshot.
\<close>

definition copySparseToKINSOL ::
  "SparseMatrix \<Rightarrow> SUNMatrix \<Rightarrow> int \<Rightarrow> int list option \<Rightarrow> error + bool \<times> SUNMatrix" where
  "copySparseToKINSOL smj JJ size' lastRowVals =
     (case copy_structure smj JJ size' of
        Inl e \<Rightarrow> Inl e
      | Inr (matrixStructChange, JJ') \<Rightarrow>
          (case classify (SM_NNZ_S JJ) (nbElem smj) matrixStructChange JJ' lastRowVals of
             Inl e \<Rightarrow> Inl e
           | Inr verdict \<Rightarrow> Inr (verdict, JJ')))"

text \<open>The verdict of a call, without the backend matrix.\<close>

definition structureChanged :: "error + bool \<times> SUNMatrix \<Rightarrow> error + bool" where
  "structureChanged r = (case r of Inl e \<Rightarrow> Inl e | Inr (verdict, JJ') \<Rightarrow> Inr verdict)"

subsection \<open>The refactorization coordinator\<close>

text \<open>
  What \<^verbatim>\<open>propagateMatrixStructureChangeToKINSOL\<close> does besides updating the matrix and
  the snapshot is recorded in order: the call of \<^verbatim>\<open>SUNLinSol_KLUReInit\<close> with its nonzero
  count and its reinitialization type, the release and the allocation of the snapshot
  buffer, and the debug trace.
\<close>

datatype effect =
  KLUReInit int int
  | FreeSnapshot
  | MallocSnapshot int
  | TraceDebug string

record solver_state =
  st_JJ :: SUNMatrix
  st_lastRowVals :: "int list option"
  st_effects :: "effect list"

text \<open>\<^verbatim>\<open>memcpy(dst, src, sizeof (sunindextype) * n)\<close>.\<close>

definition memcpy_rows :: "int list \<Rightarrow> int list \<Rightarrow> int \<Rightarrow> error + int list" where
  "memcpy_rows dst src n =
     (if n < 0 \<or> length src < nat n then Inl RowIndexReadOutOfBounds
      else if length dst < nat n then Inl IndexOutOfRange
      else Inr (take (nat n) src @ drop (nat n) dst))"

definition propagateMatrixStructureChangeToKINSOL ::
  "SparseMatrix \<Rightarrow> solver_state \<Rightarrow> int \<Rightarrow> bool \<Rightarrow> error + solver_state" where
  "propagateMatrixStructureChangeToKINSOL smj st size' log' =
     (case copySparseToKINSOL smj (st_JJ st) size' (st_lastRowVals st) of
        Inl e \<Rightarrow> Inl e
      | Inr (matrixStructChange, JJ') \<Rightarrow>
          if matrixStructChange then
            (let reinit = [KLUReInit (SM_NNZ_S JJ') 2];
                 release = (if st_lastRowVals st \<noteq> None then [FreeSnapshot] else [])
             in case malloc_array (SM_NNZ_S JJ') (0 :: int) of
                  Inl e \<Rightarrow> Inl e
                | Inr buffer \<Rightarrow>
                    (case memcpy_rows buffer (SM_INDEXVALS_S JJ') (SM_NNZ_S JJ') of
                       Inl e \<Rightarrow> Inl e
                     | Inr snapshot \<Rightarrow>
                         Inr (st\<lparr> st_JJ := JJ',
                                  st_lastRowVals := Some snapshot,
                                  st_effects := st_effects st @ reinit @ release
                                    @ [MallocSnapshot (SM_NNZ_S JJ')]
                                    @ (if log' then [TraceDebug ''MatrixStructureChange''] else []) \<rparr>)))
          else Inr (st\<lparr> st_JJ := JJ' \<rparr>))"

text \<open>
  A sequence of calls on one backend matrix: each call gives its local matrix, its size and
  the snapshot it is compared with. The result lists the backend matrix after each call.
\<close>

fun copySparseToKINSOL_calls ::
  "SUNMatrix \<Rightarrow> (SparseMatrix \<times> int \<times> int list option) list \<Rightarrow> error + SUNMatrix list" where
  "copySparseToKINSOL_calls JJ0 [] = Inr []"
| "copySparseToKINSOL_calls JJ0 ((smj, size', snapshot) # calls) =
     (case copySparseToKINSOL smj JJ0 size' snapshot of
        Inl e \<Rightarrow> Inl e
      | Inr (verdict, JJ1) \<Rightarrow>
          (case copySparseToKINSOL_calls JJ1 calls of
             Inl e \<Rightarrow> Inl e
           | Inr rest \<Rightarrow> Inr (JJ1 # rest)))"

text \<open>
  The calls the properties below are about: the dimension and the number of entries are
  non-negative 32-bit values, the arrays of the local matrix hold \<open>size + 1\<close> column pointers
  and \<open>nbElem()\<close> entries, and the backend matrix holds at least \<open>size + 1\<close> column pointers
  and as many entries as the nonzero count it reports.
\<close>

definition wf_call :: "SparseMatrix \<Rightarrow> SUNMatrix \<Rightarrow> int \<Rightarrow> bool" where
  "wf_call smj JJ size' =
     (0 \<le> size' \<and> size' + 1 < 2 ^ 32
      \<and> nat (size' + 1) \<le> length (Ap smj)
      \<and> nat (size' + 1) \<le> length (SM_INDEXPTRS_S JJ)
      \<and> 0 \<le> nbElem smj \<and> nbElem smj < 2 ^ 32
      \<and> nat (nbElem smj) \<le> length (Ai smj)
      \<and> nat (nbElem smj) \<le> length (Ax smj)
      \<and> nat (SM_NNZ_S JJ) \<le> length (SM_INDEXVALS_S JJ)
      \<and> nat (SM_NNZ_S JJ) \<le> length (SM_DATA_S JJ))"

text \<open>
  Two backend matrices with the same structure: the same reported nonzero count, the same
  column pointers and row indices, and value arrays of the same length.
\<close>

definition same_pattern :: "SUNMatrix \<Rightarrow> SUNMatrix \<Rightarrow> bool" where
  "same_pattern J1 J2 =
     (SM_NNZ_S J1 = SM_NNZ_S J2 \<and> SM_INDEXPTRS_S J1 = SM_INDEXPTRS_S J2
      \<and> SM_INDEXVALS_S J1 = SM_INDEXVALS_S J2
      \<and> length (SM_DATA_S J1) = length (SM_DATA_S J2))"

text \<open>
  The nonzero count a call of a sequence supplies, and the capacities of the backend matrix
  after each call of a sequence.
\<close>

definition call_nnz :: "SparseMatrix \<times> int \<times> int list option \<Rightarrow> int" where
  "call_nnz call = nbElem (fst call)"

definition capacities :: "error + SUNMatrix list \<Rightarrow> error + nat list" where
  "capacities r = (case r of Inl e \<Rightarrow> Inl e | Inr JJs \<Rightarrow> Inr (map capacity JJs))"

text \<open>
  Concrete inputs: the local matrix with one column that stores \<open>n\<close> entries, at the rows
  \<open>0\<close> to \<open>n - 1\<close>, and the backend matrix that holds the same column, with room for exactly
  \<open>n\<close> entries.
\<close>

definition column_matrix :: "nat \<Rightarrow> SparseMatrix" where
  "column_matrix n = \<lparr> Ap = [0, n], Ai = map int [0..<n], Ax = replicate n 1, nbTerm = int n \<rparr>"

definition column_backend :: "nat \<Rightarrow> SUNMatrix" where
  "column_backend n =
     \<lparr> SM_NNZ_S = int n, SM_INDEXPTRS_S = [0, int n],
       SM_INDEXVALS_S = map int [0..<n], SM_DATA_S = replicate n 1 \<rparr>"

declare copy_indexptrs.simps [simp del]

declare copy_entries.simps [simp del]

section \<open>The copy loops\<close>

lemma overwrite_step:
  assumes "i < n" "n \<le> length src" "i < length dst"
  shows "take (Suc i) (dst[i := src ! i]) @ take (n - Suc i) (drop (Suc i) src) @ rest
         = take i dst @ take (n - i) (drop i src) @ rest"
proof -
  have 1: "take (Suc i) (dst[i := src ! i]) = take i dst @ [src ! i]"
    using assms by (simp add: take_Suc_conv_app_nth)
  have 2: "take (n - i) (drop i src) = src ! i # take (n - Suc i) (drop (Suc i) src)"
    using assms by (metis Cons_nth_drop_Suc Suc_diff_Suc less_le_trans take_Suc_Cons)
  show ?thesis by (simp add: 1 2)
qed

lemma copy_entries_result:
  "i \<le> iEnd \<Longrightarrow> iEnd \<le> length (Ai smj) \<Longrightarrow> iEnd \<le> length (Ax smj)
   \<Longrightarrow> iEnd \<le> length (SM_INDEXVALS_S JJ) \<Longrightarrow> iEnd \<le> length (SM_DATA_S JJ)
   \<Longrightarrow> copy_entries i iEnd smj JJ =
       Inr (JJ\<lparr> SM_INDEXVALS_S :=
                  take i (SM_INDEXVALS_S JJ) @ take (iEnd - i) (drop i (Ai smj))
                    @ drop iEnd (SM_INDEXVALS_S JJ),
                SM_DATA_S :=
                  take i (SM_DATA_S JJ) @ take (iEnd - i) (drop i (Ax smj))
                    @ drop iEnd (SM_DATA_S JJ) \<rparr>)"
proof (induction i iEnd smj JJ rule: copy_entries.induct)
  case (1 i iEnd smj JJ)
  show ?case
  proof (cases "i < iEnd")
    case True
    let ?JJ = "JJ\<lparr> SM_INDEXVALS_S := (SM_INDEXVALS_S JJ)[i := Ai smj ! i],
                     SM_DATA_S := (SM_DATA_S JJ)[i := Ax smj ! i] \<rparr>"
    have inb: "i < length (Ai smj) \<and> i < length (SM_INDEXVALS_S JJ)
            \<and> i < length (Ax smj) \<and> i < length (SM_DATA_S JJ)"
      using True "1.prems" by simp
    have step: "copy_entries i iEnd smj JJ = copy_entries (Suc i) iEnd smj ?JJ"
      using True inb by (subst copy_entries.simps) simp
    have ih: "copy_entries (Suc i) iEnd smj ?JJ =
       Inr (?JJ\<lparr> SM_INDEXVALS_S :=
                  take (Suc i) (SM_INDEXVALS_S ?JJ) @ take (iEnd - Suc i) (drop (Suc i) (Ai smj))
                    @ drop iEnd (SM_INDEXVALS_S ?JJ),
                SM_DATA_S :=
                  take (Suc i) (SM_DATA_S ?JJ) @ take (iEnd - Suc i) (drop (Suc i) (Ax smj))
                    @ drop iEnd (SM_DATA_S ?JJ) \<rparr>)"
      using True inb "1.prems" by (intro "1.IH") simp_all
    show ?thesis
      using True "1.prems"
      by (simp add: step ih overwrite_step)
  next
    case False
    with "1.prems" have "i = iEnd" by simp
    then show ?thesis by (subst copy_entries.simps) simp
  qed
qed


lemma copy_indexptrs_result_aux:
  "src = map int (Ap smj) \<Longrightarrow> i \<le> iEnd \<Longrightarrow> iEnd \<le> length src
   \<Longrightarrow> iEnd \<le> length (SM_INDEXPTRS_S JJ)
   \<Longrightarrow> copy_indexptrs i iEnd smj JJ =
       Inr (JJ\<lparr> SM_INDEXPTRS_S :=
                  take i (SM_INDEXPTRS_S JJ) @ take (iEnd - i) (drop i src)
                    @ drop iEnd (SM_INDEXPTRS_S JJ) \<rparr>)"
proof (induction i iEnd smj JJ rule: copy_indexptrs.induct)
  case (1 i iEnd smj JJ)
  have len: "length src = length (Ap smj)"
    using "1.prems"(1) by simp
  show ?case
  proof (cases "i < iEnd")
    case True
    let ?JJ = "JJ\<lparr> SM_INDEXPTRS_S := (SM_INDEXPTRS_S JJ)[i := int (Ap smj ! i)] \<rparr>"
    have inb: "i < length (Ap smj) \<and> i < length (SM_INDEXPTRS_S JJ)"
      using True "1.prems"(3,4) len by simp
    have nth: "int (Ap smj ! i) = src ! i"
      using inb "1.prems"(1) by simp
    have step: "copy_indexptrs i iEnd smj JJ = copy_indexptrs (Suc i) iEnd smj ?JJ"
      using True inb by (subst copy_indexptrs.simps) simp
    have ih: "copy_indexptrs (Suc i) iEnd smj ?JJ =
       Inr (?JJ\<lparr> SM_INDEXPTRS_S :=
                  take (Suc i) (SM_INDEXPTRS_S ?JJ) @ take (iEnd - Suc i) (drop (Suc i) src)
                    @ drop iEnd (SM_INDEXPTRS_S ?JJ) \<rparr>)"
      using True inb "1.prems" by (intro "1.IH") simp_all
    show ?thesis
      unfolding step ih using True inb "1.prems"(3)
      by (simp add: nth overwrite_step)
  next
    case False
    with "1.prems" have "i = iEnd" by simp
    then show ?thesis by (subst copy_indexptrs.simps) simp
  qed
qed

lemma copy_indexptrs_result:
  "iEnd \<le> length (Ap smj) \<Longrightarrow> iEnd \<le> length (SM_INDEXPTRS_S JJ)
   \<Longrightarrow> copy_indexptrs 0 iEnd smj JJ =
       Inr (JJ\<lparr> SM_INDEXPTRS_S :=
                  take iEnd (map int (Ap smj)) @ drop iEnd (SM_INDEXPTRS_S JJ) \<rparr>)"
  using copy_indexptrs_result_aux [of "map int (Ap smj)" smj 0 iEnd JJ] by simp

lemma copy_entries_from_0:
  "iEnd \<le> length (Ai smj) \<Longrightarrow> iEnd \<le> length (Ax smj)
   \<Longrightarrow> iEnd \<le> length (SM_INDEXVALS_S JJ) \<Longrightarrow> iEnd \<le> length (SM_DATA_S JJ)
   \<Longrightarrow> copy_entries 0 iEnd smj JJ =
       Inr (JJ\<lparr> SM_INDEXVALS_S := take iEnd (Ai smj) @ drop iEnd (SM_INDEXVALS_S JJ),
                SM_DATA_S := take iEnd (Ax smj) @ drop iEnd (SM_DATA_S JJ) \<rparr>)"
  using copy_entries_result [of 0 iEnd smj JJ] by simp

lemma to_unsigned_nat: "0 \<le> n \<Longrightarrow> n < 2 ^ 32 \<Longrightarrow> to_unsigned n = nat n"
  by (simp add: to_unsigned_def)

lemma copy_structure_grow:
  assumes wf: "wf_call smj JJ size'" and grow: "SM_NNZ_S JJ < nbElem smj"
  shows "copy_structure smj JJ size' =
           Inr (True, \<lparr> SM_NNZ_S = nbElem smj,
                         SM_INDEXPTRS_S = take (nat (size' + 1)) (map int (Ap smj)),
                         SM_INDEXVALS_S = take (nat (nbElem smj)) (Ai smj),
                         SM_DATA_S = take (nat (nbElem smj)) (Ax smj) \<rparr>)"
proof -
  have u: "to_unsigned (size' + 1) = nat (size' + 1)" "to_unsigned (nbElem smj) = nat (nbElem smj)"
    using wf by (simp_all add: to_unsigned_nat wf_call_def)
  have b: "0 \<le> size' + 1" "0 \<le> nbElem smj"
      "nat (size' + 1) \<le> length (Ap smj)"
      "nat (nbElem smj) \<le> length (Ai smj)" "nat (nbElem smj) \<le> length (Ax smj)"
    using wf by (simp_all add: wf_call_def)
  show ?thesis
    using grow b
    by (simp add: copy_structure_def Let_def reallocate_def malloc_array_def u
        copy_indexptrs_result copy_entries_from_0)
qed

lemma copy_structure_keep:
  assumes wf: "wf_call smj JJ size'" and keep: "\<not> SM_NNZ_S JJ < nbElem smj"
  shows "copy_structure smj JJ size' =
           Inr (False, JJ\<lparr> SM_NNZ_S := nbElem smj,
                         SM_INDEXPTRS_S := take (nat (size' + 1)) (map int (Ap smj))
                            @ drop (nat (size' + 1)) (SM_INDEXPTRS_S JJ),
                         SM_INDEXVALS_S := take (nat (nbElem smj)) (Ai smj)
                            @ drop (nat (nbElem smj)) (SM_INDEXVALS_S JJ),
                         SM_DATA_S := take (nat (nbElem smj)) (Ax smj)
                            @ drop (nat (nbElem smj)) (SM_DATA_S JJ) \<rparr>)"
proof -
  have u: "to_unsigned (size' + 1) = nat (size' + 1)" "to_unsigned (nbElem smj) = nat (nbElem smj)"
    using wf by (simp_all add: to_unsigned_nat wf_call_def)
  have "nat (nbElem smj) \<le> nat (SM_NNZ_S JJ)"
    using keep by simp
  then have le: "nat (nbElem smj) \<le> length (SM_INDEXVALS_S JJ)"
      "nat (nbElem smj) \<le> length (SM_DATA_S JJ)"
    using wf unfolding wf_call_def by linarith+
  have b: "nat (size' + 1) \<le> length (Ap smj)" "nat (size' + 1) \<le> length (SM_INDEXPTRS_S JJ)"
      "nat (nbElem smj) \<le> length (Ai smj)" "nat (nbElem smj) \<le> length (Ax smj)"
    using wf by (simp_all add: wf_call_def)
  show ?thesis
    using keep b le
    by (simp add: copy_structure_def Let_def u copy_indexptrs_result copy_entries_from_0)
qed

section \<open>The growth path and the classification\<close>

lemma copy_structure_wf:
  assumes wf: "wf_call smj JJ size'"
  obtains JJ' where
    "copy_structure smj JJ size' = Inr (SM_NNZ_S JJ < nbElem smj, JJ')"
    "SM_NNZ_S JJ' = nbElem smj"
    "nat (nbElem smj) \<le> length (SM_INDEXVALS_S JJ')"
    "take (nat (nbElem smj)) (SM_INDEXVALS_S JJ') = take (nat (nbElem smj)) (Ai smj)"
    "capacity JJ' = (if SM_NNZ_S JJ < nbElem smj then nat (nbElem smj) else capacity JJ)"
proof (cases "SM_NNZ_S JJ < nbElem smj")
  case True
  have "nat (nbElem smj) \<le> length (Ai smj)"
    using wf by (simp add: wf_call_def)
  then show ?thesis
    using that copy_structure_grow [OF wf True] True by (simp add: capacity_def)
next
  case False
  have "nat (nbElem smj) \<le> nat (SM_NNZ_S JJ)"
    using False by simp
  then have "nat (nbElem smj) \<le> length (SM_INDEXVALS_S JJ)" "nat (nbElem smj) \<le> length (Ai smj)"
    using wf unfolding wf_call_def by linarith+
  then show ?thesis
    using that copy_structure_keep [OF wf False] False by (simp add: capacity_def)
qed

lemma wf_call_after:
  assumes wf: "wf_call smj JJ size'" and c: "copy_structure smj JJ size' = Inr (flag, JJ')"
  shows "wf_call smj JJ' size'"
proof (cases "SM_NNZ_S JJ < nbElem smj")
  case True
  show ?thesis
    using wf c copy_structure_grow [OF wf True] by (auto simp: wf_call_def)
next
  case False
  have "nat (nbElem smj) \<le> nat (SM_NNZ_S JJ)"
    using False by simp
  then have "nat (nbElem smj) \<le> length (SM_INDEXVALS_S JJ)"
      "nat (nbElem smj) \<le> length (SM_DATA_S JJ)"
    using wf unfolding wf_call_def by linarith+
  then show ?thesis
    using wf c copy_structure_keep [OF wf False] by (auto simp: wf_call_def)
qed

lemma copy_entries_frame:
  "copy_entries i iEnd smj JJ = Inr JJ' \<Longrightarrow>
     SM_NNZ_S JJ' = SM_NNZ_S JJ \<and> length (SM_INDEXVALS_S JJ') = length (SM_INDEXVALS_S JJ)
     \<and> length (SM_DATA_S JJ') = length (SM_DATA_S JJ)
     \<and> SM_INDEXPTRS_S JJ' = SM_INDEXPTRS_S JJ"
proof (induction i iEnd smj JJ rule: copy_entries.induct)
  case (1 i iEnd smj JJ)
  show ?case
  proof (cases "i < iEnd")
    case True
    show ?thesis
    proof (cases "i < length (Ai smj) \<and> i < length (SM_INDEXVALS_S JJ)
            \<and> i < length (Ax smj) \<and> i < length (SM_DATA_S JJ)")
      case inb: True
      let ?JJ = "JJ\<lparr> SM_INDEXVALS_S := (SM_INDEXVALS_S JJ)[i := Ai smj ! i],
                     SM_DATA_S := (SM_DATA_S JJ)[i := Ax smj ! i] \<rparr>"
      have "copy_entries (Suc i) iEnd smj ?JJ = Inr JJ'"
        using "1.prems" True inb by (subst (asm) copy_entries.simps) simp
      from "1.IH" [OF True inb this] show ?thesis by simp
    next
      case False
      then show ?thesis
        using "1.prems" True by (subst (asm) copy_entries.simps) auto
    qed
  next
    case False
    then show ?thesis
      using "1.prems" by (subst (asm) copy_entries.simps) auto
  qed
qed

lemma copy_indexptrs_frame:
  "copy_indexptrs i iEnd smj JJ = Inr JJ' \<Longrightarrow>
     SM_NNZ_S JJ' = SM_NNZ_S JJ \<and> SM_INDEXVALS_S JJ' = SM_INDEXVALS_S JJ
     \<and> SM_DATA_S JJ' = SM_DATA_S JJ
     \<and> length (SM_INDEXPTRS_S JJ') = length (SM_INDEXPTRS_S JJ)"
proof (induction i iEnd smj JJ rule: copy_indexptrs.induct)
  case (1 i iEnd smj JJ)
  show ?case
  proof (cases "i < iEnd")
    case True
    show ?thesis
    proof (cases "i < length (Ap smj) \<and> i < length (SM_INDEXPTRS_S JJ)")
      case inb: True
      let ?JJ = "JJ\<lparr> SM_INDEXPTRS_S := (SM_INDEXPTRS_S JJ)[i := int (Ap smj ! i)] \<rparr>"
      have "copy_indexptrs (Suc i) iEnd smj ?JJ = Inr JJ'"
        using "1.prems" True inb by (subst (asm) copy_indexptrs.simps) simp
      from "1.IH" [OF True inb this] show ?thesis by simp
    next
      case False
      then show ?thesis
        using "1.prems" True by (subst (asm) copy_indexptrs.simps) auto
    qed
  next
    case False
    then show ?thesis
      using "1.prems" by (subst (asm) copy_indexptrs.simps) auto
  qed
qed

lemma reallocate_frame:
  "reallocate JJ size' newNNZ = Inr JJ1 \<Longrightarrow>
     length (SM_INDEXVALS_S JJ1) = nat newNNZ \<and> length (SM_DATA_S JJ1) = nat newNNZ
     \<and> length (SM_INDEXPTRS_S JJ1) = nat (size' + 1)"
  by (auto simp: reallocate_def malloc_array_def split: if_splits)

lemma copy_structure_capacity:
  assumes "copy_structure smj JJ size' = Inr (flag, JJ')"
  shows "SM_NNZ_S JJ' = nbElem smj
         \<and> capacity JJ' = (if SM_NNZ_S JJ < nbElem smj then nat (nbElem smj) else capacity JJ)
         \<and> flag = (SM_NNZ_S JJ < nbElem smj)"
proof -
  obtain f1 JJ1 where
    r: "(if SM_NNZ_S JJ < nbElem smj
         then (case reallocate JJ size' (nbElem smj) of
                 Inl e \<Rightarrow> Inl e
               | Inr JJ1 \<Rightarrow> Inr (True, JJ1))
         else Inr (False, JJ)) = Inr (f1, JJ1)"
    using assms by (auto simp: copy_structure_def Let_def split: sum.splits)
  obtain JJ2 where
    p: "copy_indexptrs 0 (to_unsigned (size' + 1)) smj (JJ1\<lparr> SM_NNZ_S := nbElem smj \<rparr>) = Inr JJ2"
    using assms r by (auto simp: copy_structure_def Let_def split: sum.splits)
  have e: "copy_entries 0 (to_unsigned (nbElem smj)) smj JJ2 = Inr JJ'" and f: "flag = f1"
    using assms r p by (auto simp: copy_structure_def Let_def split: sum.splits)
  have c1: "length (SM_INDEXVALS_S JJ1) =
              (if SM_NNZ_S JJ < nbElem smj then nat (nbElem smj) else length (SM_INDEXVALS_S JJ))"
    and f1: "f1 = (SM_NNZ_S JJ < nbElem smj)"
    using r by (auto split: if_splits sum.splits dest: reallocate_frame)
  show ?thesis
    using copy_indexptrs_frame [OF p] copy_entries_frame [OF e] c1 f1 f
    by (simp add: capacity_def)
qed

lemma copySparseToKINSOL_capacity:
  assumes "copySparseToKINSOL smj JJ size' snapshot = Inr (verdict, JJ')"
  shows "SM_NNZ_S JJ' = nbElem smj
         \<and> capacity JJ' = (if SM_NNZ_S JJ < nbElem smj then nat (nbElem smj) else capacity JJ)"
proof -
  obtain flag where "copy_structure smj JJ size' = Inr (flag, JJ')"
    using assms by (auto simp: copySparseToKINSOL_def split: sum.splits prod.splits)
  from copy_structure_capacity [OF this] show ?thesis by simp
qed

section \<open>The classification against the snapshot\<close>

lemma classify_None: "classify c n flag JJ None = Inr True"
  by (simp add: classify_def)

lemma ratio_below_tolerance:
  "0 < c \<Longrightarrow> (real_of_int d / real_of_int c \<ge> STRUCTURE_CHANGE_TOLERANCE) = (c \<le> 100 * d)"
proof -
  assume c: "0 < c"
  have "(real_of_int d / real_of_int c \<ge> 1 / 100) = (real_of_int c \<le> 100 * real_of_int d)"
    using c by (simp add: field_simps)
  also have "\<dots> = (c \<le> 100 * d)"
    by (metis of_int_le_iff of_int_mult of_int_numeral)
  finally show ?thesis by (simp add: STRUCTURE_CHANGE_TOLERANCE_def)
qed

lemma classify_within_tolerance:
  assumes "0 < c" "n \<noteq> c" "\<bar>n - c\<bar> < 10" "100 * \<bar>n - c\<bar> < c"
  shows "classify c n flag JJ (Some snapshot) = Inr flag"
  using assms by (simp add: classify_def Let_def ratio_below_tolerance MIN_NNZ_CHANGE_def)

lemma within_tolerance_verdict:
  assumes "wf_call smj JJ size'"
    and "0 < SM_NNZ_S JJ" and "nbElem smj \<noteq> SM_NNZ_S JJ"
    and "\<bar>nbElem smj - SM_NNZ_S JJ\<bar> < 10"
    and "100 * \<bar>nbElem smj - SM_NNZ_S JJ\<bar> < SM_NNZ_S JJ"
  shows "structureChanged (copySparseToKINSOL smj JJ size' (Some snapshot))
           = Inr (SM_NNZ_S JJ < nbElem smj)"
proof -
  from copy_structure_wf [OF assms(1)] obtain JJ' where
    c: "copy_structure smj JJ size' = Inr (SM_NNZ_S JJ < nbElem smj, JJ')" by blast
  show ?thesis
    using classify_within_tolerance [OF assms(2-5)]
    by (simp add: structureChanged_def copySparseToKINSOL_def c)
qed

lemma take_differs:
  assumes "k < n" "n \<le> length a" "n \<le> length b" "a ! k \<noteq> b ! k"
  shows "take n a \<noteq> take n b"
proof
  assume "take n a = take n b"
  then have "take n a ! k = take n b ! k" by simp
  with assms show False by simp
qed

lemma classify_equal_size:
  "classify n n flag JJ (Some snapshot) =
     (case memcmp_differs snapshot (SM_INDEXVALS_S JJ) (SM_NNZ_S JJ) of
        Inl e \<Rightarrow> Inl e
      | Inr differs \<Rightarrow> Inr (if differs then True else flag))"
  by (simp add: classify_def Let_def)

lemma memcmp_differs_in_bounds:
  "0 \<le> n \<Longrightarrow> nat n \<le> length a \<Longrightarrow> nat n \<le> length b
   \<Longrightarrow> memcmp_differs a b n = Inr (take (nat n) a \<noteq> take (nat n) b)"
  by (simp add: memcmp_differs_def)

lemma classify_total:
  assumes "0 \<le> SM_NNZ_S JJ'" "nat (SM_NNZ_S JJ') \<le> length snapshot"
    "nat (SM_NNZ_S JJ') \<le> length (SM_INDEXVALS_S JJ')"
  shows "\<exists>v. classify c n flag JJ' (Some snapshot) = Inr v"
  using assms by (simp add: classify_def Let_def memcmp_differs_in_bounds)

lemma equal_size_verdict:
  assumes wf: "wf_call smj JJ size'"
    and same: "nbElem smj = SM_NNZ_S JJ"
    and len: "nat (nbElem smj) \<le> length snapshot"
  shows "structureChanged (copySparseToKINSOL smj JJ size' (Some snapshot))
           = Inr (take (nat (nbElem smj)) snapshot \<noteq> take (nat (nbElem smj)) (Ai smj))"
proof -
  from copy_structure_wf [OF wf] obtain JJ' where
    c: "copy_structure smj JJ size' = Inr (SM_NNZ_S JJ < nbElem smj, JJ')"
    and n: "SM_NNZ_S JJ' = nbElem smj"
    and l: "nat (nbElem smj) \<le> length (SM_INDEXVALS_S JJ')"
    and t: "take (nat (nbElem smj)) (SM_INDEXVALS_S JJ') = take (nat (nbElem smj)) (Ai smj)"
    by blast
  have nonneg: "0 \<le> nbElem smj"
    using wf by (simp add: wf_call_def)
  have m: "memcmp_differs snapshot (SM_INDEXVALS_S JJ') (SM_NNZ_S JJ')
             = Inr (take (nat (nbElem smj)) snapshot \<noteq> take (nat (nbElem smj)) (Ai smj))"
    using memcmp_differs_in_bounds [OF nonneg len l] by (simp add: n t)
  show ?thesis
    using same by (simp add: structureChanged_def copySparseToKINSOL_def c classify_equal_size m)
qed

lemma classify_same_pattern:
  "same_pattern J1 J2 \<Longrightarrow> classify c n flag J1 s = classify c n flag J2 s"
  by (simp add: classify_def same_pattern_def split: option.splits)

section \<open>The value array does not reach the structure\<close>

lemma copy_entries_values:
  assumes "iEnd \<le> length ax1" "iEnd \<le> length ax2" "same_pattern J1 J2"
  shows "rel_sum (=) same_pattern
           (copy_entries i iEnd (smj\<lparr> Ax := ax1 \<rparr>) J1)
           (copy_entries i iEnd (smj\<lparr> Ax := ax2 \<rparr>) J2)"
  using assms
proof (induction "iEnd - i" arbitrary: i J1 J2)
  case 0
  then show ?case
    by (subst copy_entries.simps, subst (2) copy_entries.simps) simp
next
  case (Suc d)
  then have lt: "i < iEnd" by simp
  show ?case
  proof (cases "i < length (Ai smj) \<and> i < length (SM_INDEXVALS_S J1)
                  \<and> i < length (SM_DATA_S J1)")
    case True
    let ?K1 = "J1\<lparr> SM_INDEXVALS_S := (SM_INDEXVALS_S J1)[i := Ai smj ! i],
                   SM_DATA_S := (SM_DATA_S J1)[i := ax1 ! i] \<rparr>"
    let ?K2 = "J2\<lparr> SM_INDEXVALS_S := (SM_INDEXVALS_S J2)[i := Ai smj ! i],
                   SM_DATA_S := (SM_DATA_S J2)[i := ax2 ! i] \<rparr>"
    have s1: "copy_entries i iEnd (smj\<lparr> Ax := ax1 \<rparr>) J1
                = copy_entries (Suc i) iEnd (smj\<lparr> Ax := ax1 \<rparr>) ?K1"
      using lt True Suc.prems by (subst copy_entries.simps) simp
    have s2: "copy_entries i iEnd (smj\<lparr> Ax := ax2 \<rparr>) J2
                = copy_entries (Suc i) iEnd (smj\<lparr> Ax := ax2 \<rparr>) ?K2"
      using lt True Suc.prems by (subst copy_entries.simps) (simp add: same_pattern_def)
    have sp: "same_pattern ?K1 ?K2"
      using Suc.prems by (simp add: same_pattern_def)
    have d: "d = iEnd - Suc i"
      using Suc.hyps(2) by simp
    show ?thesis
      unfolding s1 s2 using Suc.hyps(1) [OF d Suc.prems(1,2) sp] .
  next
    case False
    have "copy_entries i iEnd (smj\<lparr> Ax := ax1 \<rparr>) J1 = Inl IndexOutOfRange"
      using lt False Suc.prems by (subst copy_entries.simps) auto
    moreover have "copy_entries i iEnd (smj\<lparr> Ax := ax2 \<rparr>) J2 = Inl IndexOutOfRange"
      using lt False Suc.prems by (subst copy_entries.simps) (auto simp: same_pattern_def)
    ultimately show ?thesis by simp
  qed
qed

lemma copy_indexptrs_values:
  assumes "same_pattern J1 J2"
  shows "rel_sum (=) same_pattern
           (copy_indexptrs i iEnd (smj\<lparr> Ax := ax1 \<rparr>) J1)
           (copy_indexptrs i iEnd (smj\<lparr> Ax := ax2 \<rparr>) J2)"
  using assms
proof (induction "iEnd - i" arbitrary: i J1 J2)
  case 0
  then show ?case
    by (subst copy_indexptrs.simps, subst (2) copy_indexptrs.simps) simp
next
  case (Suc d)
  then have lt: "i < iEnd" by simp
  show ?case
  proof (cases "i < length (Ap smj) \<and> i < length (SM_INDEXPTRS_S J1)")
    case True
    let ?K1 = "J1\<lparr> SM_INDEXPTRS_S := (SM_INDEXPTRS_S J1)[i := int (Ap smj ! i)] \<rparr>"
    let ?K2 = "J2\<lparr> SM_INDEXPTRS_S := (SM_INDEXPTRS_S J2)[i := int (Ap smj ! i)] \<rparr>"
    have s1: "copy_indexptrs i iEnd (smj\<lparr> Ax := ax1 \<rparr>) J1
                = copy_indexptrs (Suc i) iEnd (smj\<lparr> Ax := ax1 \<rparr>) ?K1"
      using lt True by (subst copy_indexptrs.simps) simp
    have s2: "copy_indexptrs i iEnd (smj\<lparr> Ax := ax2 \<rparr>) J2
                = copy_indexptrs (Suc i) iEnd (smj\<lparr> Ax := ax2 \<rparr>) ?K2"
      using lt True Suc.prems by (subst copy_indexptrs.simps) (simp add: same_pattern_def)
    have sp: "same_pattern ?K1 ?K2"
      using Suc.prems by (simp add: same_pattern_def)
    have d: "d = iEnd - Suc i"
      using Suc.hyps(2) by simp
    show ?thesis
      unfolding s1 s2 using Suc.hyps(1) [OF d sp] .
  next
    case False
    have "copy_indexptrs i iEnd (smj\<lparr> Ax := ax1 \<rparr>) J1 = Inl IndexOutOfRange"
      using lt False by (subst copy_indexptrs.simps) auto
    moreover have "copy_indexptrs i iEnd (smj\<lparr> Ax := ax2 \<rparr>) J2 = Inl IndexOutOfRange"
      using lt False Suc.prems by (subst copy_indexptrs.simps) (auto simp: same_pattern_def)
    ultimately show ?thesis by simp
  qed
qed

lemma copy_loops_values:
  assumes "iEnd \<le> length ax1" "iEnd \<le> length ax2"
  shows "rel_sum (=) (rel_prod (=) same_pattern)
           (case copy_indexptrs 0 m (smj\<lparr> Ax := ax1 \<rparr>) J of
              Inl e \<Rightarrow> Inl e
            | Inr JJ2 \<Rightarrow>
                (case copy_entries 0 iEnd (smj\<lparr> Ax := ax1 \<rparr>) JJ2 of
                   Inl e \<Rightarrow> Inl e
                 | Inr JJ3 \<Rightarrow> Inr (flag, JJ3)))
           (case copy_indexptrs 0 m (smj\<lparr> Ax := ax2 \<rparr>) J of
              Inl e \<Rightarrow> Inl e
            | Inr JJ2 \<Rightarrow>
                (case copy_entries 0 iEnd (smj\<lparr> Ax := ax2 \<rparr>) JJ2 of
                   Inl e \<Rightarrow> Inl e
                 | Inr JJ3 \<Rightarrow> Inr (flag, JJ3)))"
proof -
  have ptrs: "rel_sum (=) same_pattern
                (copy_indexptrs 0 m (smj\<lparr> Ax := ax1 \<rparr>) J)
                (copy_indexptrs 0 m (smj\<lparr> Ax := ax2 \<rparr>) J)"
    by (rule copy_indexptrs_values) (simp add: same_pattern_def)
  show ?thesis
  proof (cases "copy_indexptrs 0 m (smj\<lparr> Ax := ax1 \<rparr>) J")
    case l1: (Inl e1)
    then have "copy_indexptrs 0 m (smj\<lparr> Ax := ax2 \<rparr>) J = Inl e1"
      using ptrs by (cases "copy_indexptrs 0 m (smj\<lparr> Ax := ax2 \<rparr>) J") auto
    then show ?thesis
      using l1 by simp
  next
    case r1: (Inr K1)
    then obtain K2 where
      r2: "copy_indexptrs 0 m (smj\<lparr> Ax := ax2 \<rparr>) J = Inr K2"
      and sp: "same_pattern K1 K2"
      using ptrs by (cases "copy_indexptrs 0 m (smj\<lparr> Ax := ax2 \<rparr>) J") auto
    have ents: "rel_sum (=) same_pattern
                 (copy_entries 0 iEnd (smj\<lparr> Ax := ax1 \<rparr>) K1)
                 (copy_entries 0 iEnd (smj\<lparr> Ax := ax2 \<rparr>) K2)"
      using copy_entries_values [OF assms sp] .
    show ?thesis
      using r1 r2 ents
      by (cases "copy_entries 0 iEnd (smj\<lparr> Ax := ax1 \<rparr>) K1";
          cases "copy_entries 0 iEnd (smj\<lparr> Ax := ax2 \<rparr>) K2") simp_all
  qed
qed

lemma copy_structure_values:
  assumes "to_unsigned (nbElem smj) \<le> length ax1" "to_unsigned (nbElem smj) \<le> length ax2"
  shows "rel_sum (=) (rel_prod (=) same_pattern)
           (copy_structure (smj\<lparr> Ax := ax1 \<rparr>) JJ size')
           (copy_structure (smj\<lparr> Ax := ax2 \<rparr>) JJ size')"
proof -
  have n: "nbElem (smj\<lparr> Ax := ax1 \<rparr>) = nbElem smj" "nbElem (smj\<lparr> Ax := ax2 \<rparr>) = nbElem smj"
    by (simp_all add: nbElem_def)
  note loops = copy_loops_values [OF assms, where m = "to_unsigned (size' + 1)" and smj = smj]
  show ?thesis
  proof (cases "SM_NNZ_S JJ < nbElem smj")
    case grow: True
    show ?thesis
    proof (cases "reallocate JJ size' (nbElem smj)")
      case (Inl e)
      then show ?thesis
        unfolding copy_structure_def Let_def n using grow by simp
    next
      case (Inr JJ1)
      then show ?thesis
        unfolding copy_structure_def Let_def n
        using grow loops [where J = "JJ1\<lparr> SM_NNZ_S := nbElem smj \<rparr>" and flag = True]
        by simp
    qed
  next
    case False
    then show ?thesis
      unfolding copy_structure_def Let_def n
      using loops [where J = "JJ\<lparr> SM_NNZ_S := nbElem smj \<rparr>" and flag = False]
      by simp
  qed
qed

section \<open>Evaluation on the concrete inputs\<close>

lemma column_wf: "m \<le> n \<Longrightarrow> n < 2 ^ 31 \<Longrightarrow> wf_call (column_matrix n) (column_backend m) 1"
  by (simp add: wf_call_def column_matrix_def column_backend_def nbElem_def)

lemma column_wf_shrink: "n \<le> m \<Longrightarrow> n < 2 ^ 31 \<Longrightarrow> wf_call (column_matrix n) (column_backend m) 1"
  by (simp add: wf_call_def column_matrix_def column_backend_def nbElem_def)

lemma column_counts [simp]:
  "nbElem (column_matrix n) = int n" "SM_NNZ_S (column_backend n) = int n"
  "Ai (column_matrix n) = map int [0..<n]" "capacity (column_backend n) = n"
  by (simp_all add: column_matrix_def column_backend_def nbElem_def capacity_def)

lemma eval_defs:
  "column_matrix n = \<lparr> Ap = [0, n], Ai = map int [0..<n], Ax = replicate n 1, nbTerm = int n \<rparr>"
  "column_backend n =
     \<lparr> SM_NNZ_S = int n, SM_INDEXPTRS_S = [0, int n],
       SM_INDEXVALS_S = map int [0..<n], SM_DATA_S = replicate n 1 \<rparr>"
  by (simp_all add: column_matrix_def column_backend_def)

lemmas run_defs =
  nbElem_def capacity_def
  capacities_def copySparseToKINSOL_def copy_structure_def reallocate_def malloc_array_def
  to_unsigned_def copy_indexptrs.simps copy_entries.simps classify_def memcmp_differs_def
  STRUCTURE_CHANGE_TOLERANCE_def MIN_NNZ_CHANGE_def Let_def upt_rec eval_nat_numeral
  propagateMatrixStructureChangeToKINSOL_def memcpy_rows_def structureChanged_def

section \<open>The divisions of the report\<close>

text \<open>
  \<^verbatim>\<open>printStatistics\<close> produces its report for every profiler except those with a false
  positive and no symbolic factorization: every division but the last one is guarded by its
  own divisor.
\<close>

lemma sections_Inr_iff:
  "(\<exists>r. sections (s # ss) = Inr r) = ((\<exists>a. s = Inr a) \<and> (\<exists>r. sections ss = Inr r))"
  by (auto split: sum.splits)

lemma field_Inr_iff: "(\<exists>r. field l k v = Inr r) = (\<exists>x. v = Inr x)"
  by (auto simp: field_def split: sum.splits)

lemma fdiv_Inr_iff: "(\<exists>x. fdiv a b = Inr x) = (b \<noteq> 0)"
  by (auto simp: fdiv_def)

lemma scaled_Inr_iff:
  "(\<exists>x. (case v of Inl e \<Rightarrow> Inl e | Inr q \<Rightarrow> Inr (f q)) = Inr x) = (\<exists>q. v = Inr q)"
  by (auto split: sum.splits)

lemma printStatistics_returns_iff:
  "(\<exists>report. printStatistics p = Inr report)
     = (\<not> (falsePositiveStructureChanges p > 0 \<and> symbolicFactorizations p = 0))"
  unfolding printStatistics_def Let_def
  by (simp only: sections_Inr_iff field_Inr_iff fdiv_Inr_iff scaled_Inr_iff if_distrib [of "\<lambda>s. \<exists>a. s = Inr a"])
     (auto simp: field_Inr_iff fdiv_Inr_iff scaled_Inr_iff sections_Inr_iff)

section \<open>Growth with a snapshot of the previous size\<close>

text \<open>
  When the count grows beyond the tolerance and the snapshot holds fewer entries than the
  new count, the comparison reads past the end of the snapshot.
\<close>

lemma growth_beyond_tolerance_overreads:
  assumes wf: "wf_call smj JJ size'"
    and grow: "SM_NNZ_S JJ < nbElem smj"
    and short: "length snapshot < nat (nbElem smj)"
    and beyond: "SM_NNZ_S JJ \<le> 0 \<or> SM_NNZ_S JJ \<le> 100 * (nbElem smj - SM_NNZ_S JJ)
                 \<or> 10 \<le> nbElem smj - SM_NNZ_S JJ"
  shows "copySparseToKINSOL smj JJ size' (Some snapshot) = Inl SnapshotReadOutOfBounds"
proof -
  from copy_structure_wf [OF wf] obtain JJ' where
    c: "copy_structure smj JJ size' = Inr (SM_NNZ_S JJ < nbElem smj, JJ')"
    and n: "SM_NNZ_S JJ' = nbElem smj"
    by blast
  have m: "memcmp_differs snapshot (SM_INDEXVALS_S JJ') (SM_NNZ_S JJ') = Inl SnapshotReadOutOfBounds"
    using short by (simp add: memcmp_differs_def n)
  have d: "\<bar>nbElem smj - SM_NNZ_S JJ\<bar> = nbElem smj - SM_NNZ_S JJ"
    using grow by simp
  have "classify (SM_NNZ_S JJ) (nbElem smj) (SM_NNZ_S JJ < nbElem smj) JJ' (Some snapshot)
          = Inl SnapshotReadOutOfBounds"
  proof (cases "0 < SM_NNZ_S JJ")
    case True
    then show ?thesis
      using beyond grow
      by (auto simp: classify_def Let_def d m ratio_below_tolerance MIN_NNZ_CHANGE_def)
  next
    case False
    then show ?thesis
      using grow
      by (simp add: classify_def Let_def m STRUCTURE_CHANGE_TOLERANCE_def)
  qed
  then show ?thesis
    by (simp add: copySparseToKINSOL_def c)
qed

section \<open>The profiler\<close>

text \<open>
  C9. \<^verbatim>\<open>getSymbolicToNumericalRatio\<close> returns \<open>0\<close> when the count of numerical-only
  factorizations is \<open>0\<close>, and the count of symbolic factorizations divided by it otherwise.
  On a new profiler, and on any profiler after \<^verbatim>\<open>reset\<close>, two symbolic factorizations and
  one numerical factorization give the ratio \<open>2\<close>, whatever the durations are. After
  \<^verbatim>\<open>reset\<close> every counter and every sum is zero (the profiler equals a new one), and so
  are the ratio and the values of the getters.
\<close>

theorem getSymbolicToNumericalRatio_reset:
  "(numericalOnlyFactorizations p = 0 \<longrightarrow> getSymbolicToNumericalRatio p = 0)
   \<and> (numericalOnlyFactorizations p \<noteq> 0 \<longrightarrow>
        getSymbolicToNumericalRatio p =
          real_of_int (symbolicFactorizations p) / real_of_int (numericalOnlyFactorizations p))
   \<and> getSymbolicToNumericalRatio
        (logNumericalFactorization d3
          (logSymbolicFactorization d2 (logSymbolicFactorization d1 SolverProfiler_new))) = 2
   \<and> getSymbolicToNumericalRatio
        (logNumericalFactorization d3
          (logSymbolicFactorization d2 (logSymbolicFactorization d1 (reset p)))) = 2
   \<and> reset p = SolverProfiler_new
   \<and> getSymbolicToNumericalRatio (reset p) = 0
   \<and> getSymbolicFactorizationCount (reset p) = 0
   \<and> getNumericalFactorizationCount (reset p) = 0
   \<and> getTotalSymbolicTime (reset p) = 0
   \<and> getTotalNumericalTime (reset p) = 0
   \<and> getFalsePositiveCount (reset p) = 0"
  by (simp add: getSymbolicToNumericalRatio_def logNumericalFactorization_def
      logSymbolicFactorization_def SolverProfiler_new_def reset_def
      getSymbolicFactorizationCount_def getNumericalFactorizationCount_def
      getTotalSymbolicTime_def getTotalNumericalTime_def getFalsePositiveCount_def)

theorem getSymbolicToNumericalRatio_reset_witness:
  "numericalOnlyFactorizations SolverProfiler_new = 0
   \<and> getSymbolicToNumericalRatio SolverProfiler_new = 0
   \<and> numericalOnlyFactorizations
        (logNumericalFactorization (3 / 10)
          (logSymbolicFactorization (1 / 10)
            (logSymbolicFactorization (1 / 10) SolverProfiler_new))) \<noteq> 0
   \<and> getSymbolicToNumericalRatio
        (logNumericalFactorization (3 / 10)
          (logSymbolicFactorization (1 / 10)
            (logSymbolicFactorization (1 / 10) SolverProfiler_new))) = 2 / 1"
proof -
  let ?p = "logNumericalFactorization (3 / 10)
          (logSymbolicFactorization (1 / 10)
            (logSymbolicFactorization (1 / 10) SolverProfiler_new))"
  have z: "numericalOnlyFactorizations SolverProfiler_new = 0"
    by (simp add: SolverProfiler_new_def)
  have nz: "numericalOnlyFactorizations ?p \<noteq> 0"
    by (simp add: logNumericalFactorization_def logSymbolicFactorization_def SolverProfiler_new_def)
  have c: "symbolicFactorizations ?p = 2" "numericalOnlyFactorizations ?p = 1"
    by (simp_all add: logNumericalFactorization_def logSymbolicFactorization_def
        SolverProfiler_new_def)
  show ?thesis
    using z nz c
      getSymbolicToNumericalRatio_reset [of SolverProfiler_new]
      getSymbolicToNumericalRatio_reset [of ?p]
    by simp
qed

text \<open>
  C4. The claim is that no operation of the profiler performs an unguarded division. The
  last block of \<^verbatim>\<open>printStatistics\<close> divides \<^verbatim>\<open>totalSymbolicTime_\<close> by
  \<^verbatim>\<open>symbolicFactorizations_\<close> under the guard \<^verbatim>\<open>falsePositiveStructureChanges_ > 0\<close>:
  on a new profiler that has logged one structure change that was not necessary, the divisor
  is zero.
\<close>

theorem printStatistics_divides_by_zero:
  "printStatistics (logStructureChange False 0 0 SolverProfiler_new) = Inl DivisionByZero"
  by (simp add: printStatistics_def logStructureChange_def SolverProfiler_new_def
      getSymbolicToNumericalRatio_def fdiv_def field_def)

section \<open>The synchronizer\<close>

text \<open>
  C6. With a null snapshot the verdict is never \<open>false\<close>, and it is \<open>true\<close> for every
  well-formed call, also when the local matrix stores no entry.
\<close>

theorem null_snapshot_forces_change:
  "structureChanged (copySparseToKINSOL smj JJ size' None) \<noteq> Inr False
   \<and> (wf_call smj JJ size' \<longrightarrow>
        structureChanged (copySparseToKINSOL smj JJ size' None) = Inr True)"
proof
  show "structureChanged (copySparseToKINSOL smj JJ size' None) \<noteq> Inr False"
    by (simp add: structureChanged_def copySparseToKINSOL_def classify_None
        split: sum.splits prod.splits)
  show "wf_call smj JJ size' \<longrightarrow>
        structureChanged (copySparseToKINSOL smj JJ size' None) = Inr True"
  proof
    assume wf: "wf_call smj JJ size'"
    from copy_structure_wf [OF wf] obtain JJ' where
      "copy_structure smj JJ size' = Inr (SM_NNZ_S JJ < nbElem smj, JJ')" by blast
    then show "structureChanged (copySparseToKINSOL smj JJ size' None) = Inr True"
      by (simp add: structureChanged_def copySparseToKINSOL_def classify_None)
  qed
qed

theorem null_snapshot_forces_change_witness:
  "wf_call (column_matrix 0) (column_backend 0) 1
   \<and> nbElem (column_matrix 0) = 0
   \<and> structureChanged (copySparseToKINSOL (column_matrix 0) (column_backend 0) 1 None)
       = Inr True"
proof -
  have wf: "wf_call (column_matrix 0) (column_backend 0) 1"
    by (rule column_wf) simp_all
  with null_snapshot_forces_change show ?thesis by simp
qed

text \<open>
  C1. The claim is that a call with a snapshot, a backend count of 1000 and a local count of
  1005 returns \<open>false\<close> when the row indices agree with the snapshot where both exist. It
  returns \<open>true\<close>: the growth path sets the flag before the tolerance test, and the tolerance
  branch leaves the flag as it is.
\<close>

theorem tolerance_suppression_counterexample:
  "SM_NNZ_S (column_backend 1000) = 1000
   \<and> nbElem (column_matrix 1005) = 1005
   \<and> take 1000 (Ai (column_matrix 1005)) = take 1000 (map int [0..<1000])
   \<and> structureChanged
        (copySparseToKINSOL (column_matrix 1005) (column_backend 1000) 1
           (Some (map int [0..<1000]))) = Inr True"
proof -
  have wf: "wf_call (column_matrix 1005) (column_backend 1000) 1"
    by (rule column_wf) simp_all
  have "structureChanged
        (copySparseToKINSOL (column_matrix 1005) (column_backend 1000) 1
           (Some (map int [0..<1000]))) = Inr True"
    using within_tolerance_verdict [OF wf, of "map int [0..<1000]"] by simp
  then show ?thesis by (simp add: take_map)
qed

text \<open>
  C1, as amended. For a well-formed call with a snapshot whose size delta is not zero and is
  below both thresholds (less than 10 entries and less than 1 percent of the backend count),
  the verdict is \<open>true\<close> when the count grows and \<open>false\<close> when it shrinks, whatever the row
  indices and the snapshot are. From 1000 to 1005 the verdict is \<open>true\<close>; from 1005 to 1000
  it is \<open>false\<close>.
\<close>

theorem growth_flags_shrink_suppressed:
  assumes "wf_call smj JJ size'"
    and "0 < SM_NNZ_S JJ" and "nbElem smj \<noteq> SM_NNZ_S JJ"
    and "\<bar>nbElem smj - SM_NNZ_S JJ\<bar> < 10"
    and "100 * \<bar>nbElem smj - SM_NNZ_S JJ\<bar> < SM_NNZ_S JJ"
  shows "structureChanged (copySparseToKINSOL smj JJ size' (Some snapshot))
           = Inr (SM_NNZ_S JJ < nbElem smj)"
  using assms by (rule within_tolerance_verdict)

theorem growth_flags_shrink_suppressed_witness:
  "wf_call (column_matrix 1005) (column_backend 1000) 1
   \<and> structureChanged
        (copySparseToKINSOL (column_matrix 1005) (column_backend 1000) 1
           (Some (map int [0..<1000]))) = Inr True
   \<and> wf_call (column_matrix 1000) (column_backend 1005) 1
   \<and> structureChanged
        (copySparseToKINSOL (column_matrix 1000) (column_backend 1005) 1
           (Some (map int [0..<1005]))) = Inr False"
proof -
  have wf1: "wf_call (column_matrix 1005) (column_backend 1000) 1"
    by (rule column_wf) simp_all
  have wf2: "wf_call (column_matrix 1000) (column_backend 1005) 1"
    by (rule column_wf_shrink) simp_all
  show ?thesis
    using wf1 wf2
      growth_flags_shrink_suppressed [OF wf1, of "map int [0..<1000]"]
      growth_flags_shrink_suppressed [OF wf2, of "map int [0..<1005]"]
    by simp
qed

text \<open>
  C2. For a well-formed call with a snapshot of at least \<open>newNnz\<close> entries and a local count
  equal to the backend count, a row index that differs from the snapshot at one of the
  \<open>newNnz\<close> positions gives the verdict \<open>true\<close>. Both branches of the tolerance test compare
  the arrays at equal size.
\<close>

theorem pattern_change_at_equal_size:
  assumes "wf_call smj JJ size'"
    and "nbElem smj = SM_NNZ_S JJ"
    and "nat (nbElem smj) \<le> length snapshot"
    and "k < nat (nbElem smj)"
    and "snapshot ! k \<noteq> Ai smj ! k"
  shows "structureChanged (copySparseToKINSOL smj JJ size' (Some snapshot)) = Inr True"
proof -
  have "nat (nbElem smj) \<le> length (Ai smj)"
    using assms(1) by (simp add: wf_call_def)
  then have "take (nat (nbElem smj)) snapshot \<noteq> take (nat (nbElem smj)) (Ai smj)"
    using take_differs assms(3-5) by blast
  then show ?thesis
    using equal_size_verdict [OF assms(1-3)] by simp
qed

theorem pattern_change_at_equal_size_witness:
  "wf_call (column_matrix 2) (column_backend 2) 1
   \<and> nbElem (column_matrix 2) = SM_NNZ_S (column_backend 2)
   \<and> nat (nbElem (column_matrix 2)) \<le> length [0, 5 :: int]
   \<and> (1 :: nat) < nat (nbElem (column_matrix 2))
   \<and> [0, 5 :: int] ! 1 \<noteq> Ai (column_matrix 2) ! 1
   \<and> structureChanged
        (copySparseToKINSOL (column_matrix 2) (column_backend 2) 1 (Some [0, 5])) = Inr True"
proof -
  have 1: "wf_call (column_matrix 2) (column_backend 2) 1"
    by (rule column_wf) simp_all
  have 2: "nbElem (column_matrix 2) = SM_NNZ_S (column_backend 2)"
    by simp
  have 3: "nat (nbElem (column_matrix 2)) \<le> length [0, 5 :: int]"
    by simp
  have 4: "(1 :: nat) < nat (nbElem (column_matrix 2))"
    by simp
  have 5: "[0, 5 :: int] ! 1 \<noteq> Ai (column_matrix 2) ! 1"
    by (simp add: upt_rec)
  show ?thesis
    using 1 2 3 4 5 pattern_change_at_equal_size [OF 1 2 3 4 5] by blast
qed

text \<open>
  C8. For a well-formed call and a snapshot that holds the first \<open>nbElem()\<close> row indices of
  the local matrix, the call returns, and after any first call that returned, a second call
  with the same local matrix and that snapshot gives the verdict \<open>false\<close>.
\<close>

theorem second_call_reports_no_change:
  assumes wf: "wf_call smj JJ size'"
    and len: "nat (nbElem smj) \<le> length snapshot"
    and match: "take (nat (nbElem smj)) snapshot = take (nat (nbElem smj)) (Ai smj)"
  shows "(\<exists>b1 JJ1. copySparseToKINSOL smj JJ size' (Some snapshot) = Inr (b1, JJ1))
         \<and> (\<forall>s0 b1 JJ1. copySparseToKINSOL smj JJ size' s0 = Inr (b1, JJ1) \<longrightarrow>
               structureChanged (copySparseToKINSOL smj JJ1 size' (Some snapshot)) = Inr False)"
proof
  from copy_structure_wf [OF wf] obtain JJ' where
    c: "copy_structure smj JJ size' = Inr (SM_NNZ_S JJ < nbElem smj, JJ')"
    and n: "SM_NNZ_S JJ' = nbElem smj"
    and l: "nat (nbElem smj) \<le> length (SM_INDEXVALS_S JJ')"
    by blast
  have "0 \<le> nbElem smj"
    using wf by (simp add: wf_call_def)
  then obtain v where
    "classify (SM_NNZ_S JJ) (nbElem smj) (SM_NNZ_S JJ < nbElem smj) JJ' (Some snapshot) = Inr v"
    using classify_total [of JJ' snapshot] len l n by metis
  then show "\<exists>b1 JJ1. copySparseToKINSOL smj JJ size' (Some snapshot) = Inr (b1, JJ1)"
    by (simp add: copySparseToKINSOL_def c)
next
  show "\<forall>s0 b1 JJ1. copySparseToKINSOL smj JJ size' s0 = Inr (b1, JJ1) \<longrightarrow>
          structureChanged (copySparseToKINSOL smj JJ1 size' (Some snapshot)) = Inr False"
  proof (intro allI impI)
    fix s0 b1 JJ1
    assume first: "copySparseToKINSOL smj JJ size' s0 = Inr (b1, JJ1)"
    then obtain flag where c: "copy_structure smj JJ size' = Inr (flag, JJ1)"
      by (auto simp: copySparseToKINSOL_def split: sum.splits prod.splits)
    have wf1: "wf_call smj JJ1 size'"
      using wf_call_after [OF wf c] .
    have same: "nbElem smj = SM_NNZ_S JJ1"
      using copy_structure_capacity [OF c] by simp
    show "structureChanged (copySparseToKINSOL smj JJ1 size' (Some snapshot)) = Inr False"
      using equal_size_verdict [OF wf1 same len] match by simp
  qed
qed

theorem second_call_reports_no_change_witness:
  "wf_call (column_matrix 3) (column_backend 2) 1
   \<and> nat (nbElem (column_matrix 3)) \<le> length [0, 1, 2 :: int]
   \<and> take (nat (nbElem (column_matrix 3))) [0, 1, 2 :: int]
       = take (nat (nbElem (column_matrix 3))) (Ai (column_matrix 3))
   \<and> copySparseToKINSOL (column_matrix 3) (column_backend 2) 1 (Some [0, 1, 2])
       = Inr (True, column_backend 3)
   \<and> structureChanged
        (copySparseToKINSOL (column_matrix 3) (column_backend 3) 1 (Some [0, 1, 2]))
       = Inr False"
proof -
  have 1: "wf_call (column_matrix 3) (column_backend 2) 1"
    by (rule column_wf) simp_all
  have 2: "nat (nbElem (column_matrix 3)) \<le> length [0, 1, 2 :: int]"
    by simp
  have 3: "take (nat (nbElem (column_matrix 3))) [0, 1, 2 :: int]
             = take (nat (nbElem (column_matrix 3))) (Ai (column_matrix 3))"
    by (simp add: upt_rec)
  have first: "copySparseToKINSOL (column_matrix 3) (column_backend 2) 1 (Some [0, 1, 2])
                 = Inr (True, column_backend 3)"
    by (simp add: eval_defs run_defs)
  show ?thesis
    using 1 2 3 first second_call_reports_no_change [OF 1 2 3] by blast
qed

text \<open>
  C10. Two calls that differ only in the value array of the local matrix, each array holding
  at least \<open>nbElem()\<close> values, have the same outcome: the same verdict, or the same error.
\<close>

theorem verdict_independent_of_values:
  assumes "to_unsigned (nbElem smj) \<le> length ax1" "to_unsigned (nbElem smj) \<le> length ax2"
  shows "structureChanged (copySparseToKINSOL (smj\<lparr> Ax := ax1 \<rparr>) JJ size' snapshot)
         = structureChanged (copySparseToKINSOL (smj\<lparr> Ax := ax2 \<rparr>) JJ size' snapshot)"
proof -
  have n: "nbElem (smj\<lparr> Ax := ax1 \<rparr>) = nbElem smj" "nbElem (smj\<lparr> Ax := ax2 \<rparr>) = nbElem smj"
    by (simp_all add: nbElem_def)
  note rel = copy_structure_values [OF assms, of JJ size']
  show ?thesis
  proof (cases "copy_structure (smj\<lparr> Ax := ax1 \<rparr>) JJ size'")
    case (Inl e)
    then have "copy_structure (smj\<lparr> Ax := ax2 \<rparr>) JJ size' = Inl e"
      using rel by (cases "copy_structure (smj\<lparr> Ax := ax2 \<rparr>) JJ size'") auto
    then show ?thesis
      unfolding copySparseToKINSOL_def n using Inl by simp
  next
    case (Inr p1)
    obtain flag J1 where p1: "p1 = (flag, J1)" by (cases p1)
    obtain J2 where
      c2: "copy_structure (smj\<lparr> Ax := ax2 \<rparr>) JJ size' = Inr (flag, J2)"
      and sp: "same_pattern J1 J2"
      using rel Inr p1 by (cases "copy_structure (smj\<lparr> Ax := ax2 \<rparr>) JJ size'") auto
    have "classify (SM_NNZ_S JJ) (nbElem smj) flag J1 snapshot
            = classify (SM_NNZ_S JJ) (nbElem smj) flag J2 snapshot"
      using classify_same_pattern [OF sp] .
    then show ?thesis
      unfolding structureChanged_def copySparseToKINSOL_def n
      using Inr p1 c2 by (simp split: sum.splits)
  qed
qed

theorem verdict_independent_of_values_witness:
  "to_unsigned (nbElem (column_matrix 2)) \<le> length [1, 1 :: real]
   \<and> to_unsigned (nbElem (column_matrix 2)) \<le> length [5, 7 :: real]
   \<and> structureChanged
        (copySparseToKINSOL ((column_matrix 2)\<lparr> Ax := [1, 1] \<rparr>) (column_backend 2) 1
           (Some [0, 1]))
       = structureChanged
        (copySparseToKINSOL ((column_matrix 2)\<lparr> Ax := [5, 7] \<rparr>) (column_backend 2) 1
           (Some [0, 1]))
   \<and> structureChanged
        (copySparseToKINSOL ((column_matrix 2)\<lparr> Ax := [5, 7] \<rparr>) (column_backend 2) 1
           (Some [0, 1])) = Inr False"
proof -
  have 1: "to_unsigned (nbElem (column_matrix 2)) \<le> length [1, 1 :: real]"
    by (simp add: to_unsigned_def)
  have 2: "to_unsigned (nbElem (column_matrix 2)) \<le> length [5, 7 :: real]"
    by (simp add: to_unsigned_def)
  have v: "structureChanged
        (copySparseToKINSOL ((column_matrix 2)\<lparr> Ax := [5, 7] \<rparr>) (column_backend 2) 1
           (Some [0, 1])) = Inr False"
    by (simp add: eval_defs run_defs)
  show ?thesis
    using 1 2 v verdict_independent_of_values [OF 1 2, of "column_backend 2" 1 "Some [0, 1]"]
    by simp
qed

text \<open>
  C7. The claim is that over calls with nondecreasing nonzero counts the allocated capacity
  of the backend matrix never shrinks. The growth test compares with the reported count,
  which every call lowers to the current count: a backend matrix with room for 10 entries
  that receives 5 and then 7 entries is allocated again, with room for 7.
\<close>

theorem capacity_shrinks_counterexample:
  "sorted (map call_nnz
     [(column_matrix 5, 1, Some (map int [0..<10])), (column_matrix 7, 1, Some (map int [0..<10]))])
   \<and> capacity (column_backend 10) = 10
   \<and> capacities (copySparseToKINSOL_calls (column_backend 10)
        [(column_matrix 5, 1, Some (map int [0..<10])),
         (column_matrix 7, 1, Some (map int [0..<10]))]) = Inr [10, 7]"
  by (simp add: call_nnz_def eval_defs run_defs)

text \<open>
  C7, as amended. After every call of a sequence that returns, the reported nonzero count
  of the backend matrix is the count of that call's local matrix. When the counts are
  nondecreasing and the first one is at least the capacity the backend matrix starts with,
  the capacity never shrinks.
\<close>

theorem capacity_monotone_above_initial_capacity:
  "copySparseToKINSOL_calls JJ0 calls = Inr JJs \<Longrightarrow>
     map SM_NNZ_S JJs = map call_nnz calls
     \<and> (sorted (int (capacity JJ0) # map call_nnz calls) \<longrightarrow>
          sorted (capacity JJ0 # map capacity JJs))"
proof (induction calls arbitrary: JJ0 JJs)
  case Nil
  then show ?case by simp
next
  case (Cons call calls)
  obtain smj size' snapshot where call: "call = (smj, size', snapshot)"
    by (cases call) auto
  obtain verdict JJ1 rest where
    first: "copySparseToKINSOL smj JJ0 size' snapshot = Inr (verdict, JJ1)"
    and rest: "copySparseToKINSOL_calls JJ1 calls = Inr rest"
    and JJs: "JJs = JJ1 # rest"
    using Cons.prems call by (auto split: sum.splits prod.splits)
  note cap = copySparseToKINSOL_capacity [OF first]
  note ih = Cons.IH [OF rest]
  have nnz: "map SM_NNZ_S JJs = map call_nnz (call # calls)"
    using cap ih by (simp add: JJs call call_nnz_def)
  have mono: "sorted (capacity JJ0 # map capacity JJs)"
    if s: "sorted (int (capacity JJ0) # map call_nnz (call # calls))"
  proof -
    have le: "int (capacity JJ0) \<le> nbElem smj"
      using s by (simp add: call call_nnz_def)
    have c1: "capacity JJ1 = nat (nbElem smj) \<or> capacity JJ1 = capacity JJ0"
      using cap by (simp split: if_splits)
    have up: "capacity JJ0 \<le> capacity JJ1"
      using c1 le by auto
    have next_le: "int (capacity JJ1) \<le> nbElem smj"
      using c1 le by auto
    have "sorted (int (capacity JJ1) # map call_nnz calls)"
      using s next_le by (auto simp: call call_nnz_def)
    then have "sorted (capacity JJ1 # map capacity rest)"
      using ih by simp
    then show ?thesis
      using up by (auto simp: JJs)
  qed
  show ?case using nnz mono by blast
qed

theorem capacity_monotone_above_initial_capacity_witness:
  "copySparseToKINSOL_calls (column_backend 2)
     [(column_matrix 3, 1, None), (column_matrix 3, 1, Some [0, 1, 2]), (column_matrix 5, 1, None)]
     = Inr [column_backend 3, column_backend 3, column_backend 5]
   \<and> sorted (int (capacity (column_backend 2)) # map call_nnz
        [(column_matrix 3, 1, None), (column_matrix 3, 1, Some [0, 1, 2]),
         (column_matrix 5, 1, None)])
   \<and> map SM_NNZ_S [column_backend 3, column_backend 3, column_backend 5] = [3, 3, 5]
   \<and> sorted (capacity (column_backend 2)
        # map capacity [column_backend 3, column_backend 3, column_backend 5])"
proof -
  have run: "copySparseToKINSOL_calls (column_backend 2)
     [(column_matrix 3, 1, None), (column_matrix 3, 1, Some [0, 1, 2]), (column_matrix 5, 1, None)]
     = Inr [column_backend 3, column_backend 3, column_backend 5]"
    by (simp add: eval_defs run_defs)
  have s: "sorted (int (capacity (column_backend 2)) # map call_nnz
        [(column_matrix 3, 1, None), (column_matrix 3, 1, Some [0, 1, 2]),
         (column_matrix 5, 1, None)])"
    by (simp add: call_nnz_def)
  show ?thesis
    using run s capacity_monotone_above_initial_capacity [OF run]
    by (simp add: call_nnz_def)
qed

section \<open>The coordinator\<close>

text \<open>
  C5. For a well-formed call: when \<^verbatim>\<open>copySparseToKINSOL\<close> returns \<open>true\<close>, the coordinator
  calls the symbolic reinitialization once, with the new nonzero count and the type 2,
  releases the previous snapshot if there is one, allocates a snapshot of \<open>newNnz\<close> entries
  and fills it with the first \<open>newNnz\<close> row indices of the backend matrix; when it returns
  \<open>false\<close>, only the backend matrix changes: no effect is recorded and the snapshot is the
  one the call received.
\<close>

theorem propagate_acts_exactly_on_change:
  assumes wf: "wf_call smj (st_JJ st) size'"
  shows "(\<forall>JJ'. copySparseToKINSOL smj (st_JJ st) size' (st_lastRowVals st) = Inr (True, JJ') \<longrightarrow>
            propagateMatrixStructureChangeToKINSOL smj st size' log' =
              Inr (st\<lparr> st_JJ := JJ',
                       st_lastRowVals := Some (take (nat (nbElem smj)) (SM_INDEXVALS_S JJ')),
                       st_effects := st_effects st @ [KLUReInit (nbElem smj) 2]
                         @ (if st_lastRowVals st \<noteq> None then [FreeSnapshot] else [])
                         @ [MallocSnapshot (nbElem smj)]
                         @ (if log' then [TraceDebug ''MatrixStructureChange''] else []) \<rparr>)
            \<and> length (take (nat (nbElem smj)) (SM_INDEXVALS_S JJ')) = nat (nbElem smj))
         \<and> (\<forall>JJ'. copySparseToKINSOL smj (st_JJ st) size' (st_lastRowVals st) = Inr (False, JJ') \<longrightarrow>
            propagateMatrixStructureChangeToKINSOL smj st size' log' = Inr (st\<lparr> st_JJ := JJ' \<rparr>))"
proof (intro conjI allI impI)
  fix JJ'
  assume "copySparseToKINSOL smj (st_JJ st) size' (st_lastRowVals st) = Inr (False, JJ')"
  then show "propagateMatrixStructureChangeToKINSOL smj st size' log' = Inr (st\<lparr> st_JJ := JJ' \<rparr>)"
    by (simp add: propagateMatrixStructureChangeToKINSOL_def)
next
  fix JJ'
  assume c: "copySparseToKINSOL smj (st_JJ st) size' (st_lastRowVals st) = Inr (True, JJ')"
  then obtain flag where cs: "copy_structure smj (st_JJ st) size' = Inr (flag, JJ')"
    by (auto simp: copySparseToKINSOL_def split: sum.splits prod.splits)
  have wf': "wf_call smj JJ' size'"
    using wf_call_after [OF wf cs] .
  have n: "SM_NNZ_S JJ' = nbElem smj"
    using copy_structure_capacity [OF cs] by simp
  have nonneg: "0 \<le> nbElem smj" and le: "nat (nbElem smj) \<le> length (SM_INDEXVALS_S JJ')"
    using wf' n by (simp_all add: wf_call_def)
  show "length (take (nat (nbElem smj)) (SM_INDEXVALS_S JJ')) = nat (nbElem smj)"
    using le by simp
  show "propagateMatrixStructureChangeToKINSOL smj st size' log' =
              Inr (st\<lparr> st_JJ := JJ',
                       st_lastRowVals := Some (take (nat (nbElem smj)) (SM_INDEXVALS_S JJ')),
                       st_effects := st_effects st @ [KLUReInit (nbElem smj) 2]
                         @ (if st_lastRowVals st \<noteq> None then [FreeSnapshot] else [])
                         @ [MallocSnapshot (nbElem smj)]
                         @ (if log' then [TraceDebug ''MatrixStructureChange''] else []) \<rparr>)"
    using c n nonneg le
    by (simp add: propagateMatrixStructureChangeToKINSOL_def malloc_array_def memcpy_rows_def)
qed

theorem propagate_acts_exactly_on_change_witness:
  "wf_call (column_matrix 2) (column_backend 2) 1
   \<and> copySparseToKINSOL (column_matrix 2) (column_backend 2) 1 (Some [0, 5])
       = Inr (True, column_backend 2)
   \<and> propagateMatrixStructureChangeToKINSOL (column_matrix 2)
        \<lparr> st_JJ = column_backend 2, st_lastRowVals = Some [0, 5], st_effects = [] \<rparr> 1 True
       = Inr \<lparr> st_JJ = column_backend 2, st_lastRowVals = Some [0, 1],
               st_effects = [KLUReInit 2 2, FreeSnapshot, MallocSnapshot 2,
                             TraceDebug ''MatrixStructureChange''] \<rparr>
   \<and> copySparseToKINSOL (column_matrix 2) (column_backend 2) 1 (Some [0, 1])
       = Inr (False, column_backend 2)
   \<and> propagateMatrixStructureChangeToKINSOL (column_matrix 2)
        \<lparr> st_JJ = column_backend 2, st_lastRowVals = Some [0, 1], st_effects = [] \<rparr> 1 True
       = Inr \<lparr> st_JJ = column_backend 2, st_lastRowVals = Some [0, 1], st_effects = [] \<rparr>"
proof -
  let ?changed = "\<lparr> st_JJ = column_backend 2, st_lastRowVals = Some [0, 5], st_effects = [] \<rparr>"
  let ?same = "\<lparr> st_JJ = column_backend 2, st_lastRowVals = Some [0, 1], st_effects = [] \<rparr>"
  have wf: "wf_call (column_matrix 2) (column_backend 2) 1"
    by (rule column_wf) simp_all
  have wf1: "wf_call (column_matrix 2) (st_JJ ?changed) 1"
    and wf2: "wf_call (column_matrix 2) (st_JJ ?same) 1"
    using wf by simp_all
  have t: "copySparseToKINSOL (column_matrix 2) (column_backend 2) 1 (Some [0, 5])
             = Inr (True, column_backend 2)"
    by (simp add: eval_defs run_defs)
  have f: "copySparseToKINSOL (column_matrix 2) (column_backend 2) 1 (Some [0, 1])
             = Inr (False, column_backend 2)"
    by (simp add: eval_defs run_defs)
  have rows: "take 2 (SM_INDEXVALS_S (column_backend 2)) = [0, 1]"
    by (simp add: eval_defs upt_rec)
  show ?thesis
    using wf t f rows
      propagate_acts_exactly_on_change [OF wf1, of True]
      propagate_acts_exactly_on_change [OF wf2, of True]
    by simp
qed

text \<open>
  C3. The claim is that the comparison with the snapshot reads \<open>newNnz\<close> entries and that
  every read stays inside the snapshot. The coordinator allocates the snapshot with the
  nonzero count of the last structural change. On a new backend matrix, a local matrix of
  one entry leaves a snapshot of one entry; the next local matrix has two entries, the
  growth is beyond the tolerance, and the comparison reads two entries of the snapshot.
\<close>

theorem snapshot_overread:
  "(case propagateMatrixStructureChangeToKINSOL (column_matrix 1)
           \<lparr> st_JJ = column_backend 0, st_lastRowVals = None, st_effects = [] \<rparr> 1 False of
      Inl e \<Rightarrow> Inl e
    | Inr st1 \<Rightarrow> propagateMatrixStructureChangeToKINSOL (column_matrix 2) st1 1 False)
   = Inl SnapshotReadOutOfBounds"
  by (simp add: eval_defs run_defs)

end
